theory Spec2Isabelle
  imports Main "HOL-Library.Sublist"
begin

section \<open>Python strings and the string operations the parsers use\<close>

text \<open>
  A Python \<open>str\<close> is a sequence of Unicode code points, and \<open>len\<close>, slicing and
  \<open>find\<close> count code points. The two delimiters contain U+25C1 and U+25B7, which are
  not bytes, so a string is modelled as the list of its code points.
\<close>

type_synonym ustr = "nat list"

text \<open>\<open>s[n:]\<close> is \<open>drop n s\<close> and \<open>s[:n]\<close> is \<open>take n s\<close> for \<open>n \<ge> 0\<close>: Python
  clamps a slice bound that lies beyond the end, as \<open>take\<close> and \<open>drop\<close> do.
  \<open>s.startswith(t)\<close> is \<open>prefix t s\<close> and \<open>s.endswith(t)\<close> is \<open>suffix t s\<close>.\<close>

text \<open>\<open>s[:-n]\<close>. For \<open>n = 0\<close> the bound is \<open>-0 = 0\<close> and the slice is empty.\<close>

definition slice_to_neg :: "nat \<Rightarrow> 'a list \<Rightarrow> 'a list" where
  "slice_to_neg n s = (if n = 0 then [] else take (length s - n) s)"

text \<open>\<open>s.find(sub)\<close>: the lowest index at which \<open>sub\<close> occurs in \<open>s\<close>; \<open>None\<close>
  stands for Python's \<open>-1\<close>.\<close>

fun find_str :: "'a list \<Rightarrow> 'a list \<Rightarrow> nat option" where
  "find_str sub [] = (if sub = [] then Some 0 else None)"
| "find_str sub (c # cs) =
     (if prefix sub (c # cs) then Some 0 else map_option Suc (find_str sub cs))"

text \<open>\<open>sub in s\<close>.\<close>

definition contains :: "'a list \<Rightarrow> 'a list \<Rightarrow> bool" where
  "contains sub s = (find_str sub s \<noteq> None)"

text \<open>\<open>s.partition(sep)\<close>: split at the first occurrence of \<open>sep\<close>; without one the
  result is \<open>(s, '', '')\<close>.\<close>

definition partition_str :: "'a list \<Rightarrow> 'a list \<Rightarrow> 'a list \<times> 'a list \<times> 'a list" where
  "partition_str sep s =
     (case find_str sep s of
        None \<Rightarrow> (s, [], [])
      | Some i \<Rightarrow> (take i s, sep, drop (i + length sep) s))"

text \<open>\<open>x or None\<close> on a string: the empty string is falsy.\<close>

definition or_None :: "'a list \<Rightarrow> 'a list option" where
  "or_None x = (if x = [] then None else Some x)"

section \<open>Errors, parser objects and output messages\<close>

datatype error = ValueError | IndexError | AttributeError | TypeError

text \<open>The attribute that the base class \<open>ReasoningParser\<close> leaves on every parser.\<close>

record 'tok ReasoningParser =
  model_tokenizer :: "'tok option"

text \<open>The two fields of \<open>DeltaMessage\<close> the parsers set; a field that is not passed
  to the constructor stays \<open>None\<close>.\<close>

record DeltaMessage =
  reasoning_content :: "ustr option"
  content :: "ustr option"

section \<open>kimi3\_reasoning\_parser.py\<close>

datatype parser_state = STATE_INITIAL | STATE_REASONING | STATE_OUTPUT

text \<open>\<open>START_TEXT\<close> is U+25C1, t, h, i, n, k, U+25B7.\<close>

definition START_TEXT :: ustr where
  "START_TEXT = [9665, 116, 104, 105, 110, 107, 9655]"

definition START_TEXT_LENGTH :: nat where
  "START_TEXT_LENGTH = length START_TEXT"

definition START_PREFIXES :: "ustr set" where
  "START_PREFIXES = set (map (\<lambda>i. take i START_TEXT) [0 ..< length START_TEXT - 1])"

text \<open>\<open>END_TEXT\<close> is U+25C1, /, t, h, i, n, k, U+25B7.\<close>

definition END_TEXT :: ustr where
  "END_TEXT = [9665, 47, 116, 104, 105, 110, 107, 9655]"

definition END_TEXT_LENGTH :: nat where
  "END_TEXT_LENGTH = length END_TEXT"

definition END_PREFIXES :: "ustr list" where
  "END_PREFIXES = map (\<lambda>i. take i END_TEXT) [1 ..< length END_TEXT - 1]"

record 'tok Kimi3ReasoningParser = "'tok ReasoningParser" +
  state :: parser_state
  delta_accumulator :: ustr

text \<open>\<open>Kimi3ReasoningParser.extract_reasoning_content\<close>.\<close>

definition Kimi3_extract_reasoning_content :: "ustr \<Rightarrow> ustr option \<times> ustr option" where
  "Kimi3_extract_reasoning_content model_output =
     (if \<not> prefix START_TEXT model_output then (None, Some model_output)
      else
        let model_output = drop START_TEXT_LENGTH model_output in
        case find_str END_TEXT model_output of
          None \<Rightarrow> (Some model_output, None)
        | Some reasoning_done_index \<Rightarrow>
            let content_start_index = reasoning_done_index + END_TEXT_LENGTH in
            (or_None (take reasoning_done_index model_output),
             or_None (drop content_start_index model_output)))"

text \<open>The loop \<open>for p in END_PREFIXES: if delta.endswith(p): ...\<close>: the first element
  of the list that is a suffix of \<open>delta\<close>, if there is one.\<close>

fun first_suffix :: "'a list list \<Rightarrow> 'a list \<Rightarrow> 'a list option" where
  "first_suffix [] delta = None"
| "first_suffix (p # ps) delta = (if suffix p delta then Some p else first_suffix ps delta)"

text \<open>The second half of \<open>extract_reasoning_content_streaming\<close>, from the comment
  "we're either in STATE\_REASONING or STATE\_OUTPUT" on.\<close>

definition reasoning_or_output ::
  "'tok Kimi3ReasoningParser \<Rightarrow> ustr \<Rightarrow> 'tok Kimi3ReasoningParser \<times> DeltaMessage option" where
  "reasoning_or_output self delta =
     (if state self = STATE_REASONING then
        (case find_str END_TEXT delta of
           None \<Rightarrow>
             (case first_suffix END_PREFIXES delta of
                Some p \<Rightarrow>
                  (self\<lparr>delta_accumulator := p\<rparr>,
                   Some \<lparr>reasoning_content = Some (slice_to_neg (length p) delta),
                         content = None\<rparr>)
              | None \<Rightarrow> (self, Some \<lparr>reasoning_content = Some delta, content = None\<rparr>))
         | Some reasoning_done_index \<Rightarrow>
             (self\<lparr>state := STATE_OUTPUT\<rparr>,
              Some \<lparr>reasoning_content = Some (take reasoning_done_index delta),
                    content = or_None (drop (reasoning_done_index + END_TEXT_LENGTH) delta)\<rparr>))
      else (self, Some \<lparr>reasoning_content = None, content = or_None delta\<rparr>))"

text \<open>\<open>Kimi3ReasoningParser.extract_reasoning_content_streaming\<close>. Only
  \<open>delta_text\<close> is read; the object is passed in and returned updated.\<close>

definition extract_reasoning_content_streaming ::
  "'tok Kimi3ReasoningParser \<Rightarrow> ustr \<Rightarrow> 'tok Kimi3ReasoningParser \<times> DeltaMessage option" where
  "extract_reasoning_content_streaming self delta_text =
     (let delta = delta_accumulator self @ delta_text;
          self = self\<lparr>delta_accumulator := []\<rparr>
      in
        if state self = STATE_INITIAL then
          (if prefix START_TEXT delta then
             reasoning_or_output (self\<lparr>state := STATE_REASONING\<rparr>) (drop START_TEXT_LENGTH delta)
           else if delta \<in> START_PREFIXES then
             (self\<lparr>delta_accumulator := delta\<rparr>, None)
           else reasoning_or_output (self\<lparr>state := STATE_OUTPUT\<rparr>) delta)
        else reasoning_or_output self delta)"

text \<open>A caller feeding chunks in order to one instance, collecting what each call
  returns.\<close>

fun feed ::
  "'tok Kimi3ReasoningParser \<Rightarrow> ustr list
     \<Rightarrow> 'tok Kimi3ReasoningParser \<times> DeltaMessage option list" where
  "feed self [] = (self, [])"
| "feed self (chunk # chunks) =
     (let (self', out) = extract_reasoning_content_streaming self chunk;
          (self'', outs) = feed self' chunks
      in (self'', out # outs))"

text \<open>The concatenation of the emitted fragments of one kind, absence read as the
  empty string.\<close>

definition fragment :: "(DeltaMessage \<Rightarrow> ustr option) \<Rightarrow> DeltaMessage option \<Rightarrow> ustr" where
  "fragment field out =
     (case out of None \<Rightarrow> [] | Some d \<Rightarrow> (case field d of None \<Rightarrow> [] | Some t \<Rightarrow> t))"

definition emitted :: "(DeltaMessage \<Rightarrow> ustr option) \<Rightarrow> DeltaMessage option list \<Rightarrow> ustr" where
  "emitted field outs = concat (map (fragment field) outs)"

section \<open>kimi\_reasoning\_parser.py\<close>

text \<open>The class attributes \<open>start_token\<close> and \<open>end_token\<close> of
  \<open>KimiReasoningParser\<close>.\<close>

definition Kimi_start_token :: ustr where
  "Kimi_start_token = [9665, 116, 104, 105, 110, 107, 9655]"

definition Kimi_end_token :: ustr where
  "Kimi_end_token = [9665, 47, 116, 104, 105, 110, 107, 9655]"

text \<open>\<open>KimiReasoningParser.extract_reasoning_content\<close>.\<close>

definition Kimi_extract_reasoning_content :: "ustr \<Rightarrow> ustr option \<times> ustr option" where
  "Kimi_extract_reasoning_content model_output =
     (if \<not> prefix Kimi_start_token model_output then (None, Some model_output)
      else
        let model_output_without_start = drop (length Kimi_start_token) model_output in
        if \<not> contains Kimi_end_token model_output_without_start
        then (Some model_output_without_start, None)
        else
          (case partition_str Kimi_end_token model_output_without_start of
             (reasoning_content', _, content') \<Rightarrow>
               let final_content = or_None content' in
               (Some reasoning_content', final_content)))"

section \<open>kimi2\_reasoning\_parser.py\<close>

text \<open>The constructor sets \<open>start_token\<close> and \<open>end_token\<close> to the same two literals
  in every instance and compiles \<open>reasoning_regex\<close> from them, so they are constants
  here.\<close>

definition Kimi2_start_token :: ustr where
  "Kimi2_start_token = [9665, 116, 104, 105, 110, 107, 9655]"

definition Kimi2_end_token :: ustr where
  "Kimi2_end_token = [9665, 47, 116, 104, 105, 110, 107, 9655]"

text \<open>
  \<open>reasoning_regex\<close> is the escaped start token, the lazy group \<open>(.*?)\<close>, the escaped end
  token and the greedy group \<open>(.*)\<close>, compiled with \<open>DOTALL\<close>, so that \<open>.\<close> matches
  every character. The backtracking matcher of \<open>re\<close> on this pattern:

  \<^item> after the start token, the lazy group is tried with no character, then one, then
    two and so on; at each length the end token has to follow. Once it does, the greedy
    group takes all that is left of the text, and the match succeeds
    (\<open>lazy_group_then_end\<close>, whose first argument is the lazy group so far);
  \<^item> a match attempt at one position needs the start token there (\<open>match_here\<close>);
  \<^item> a search tries the positions of the text from left to right and stops at the
    first that matches (\<open>reasoning_regex_search\<close>).
\<close>

fun lazy_group_then_end :: "ustr \<Rightarrow> ustr \<Rightarrow> (ustr \<times> ustr) option" where
  "lazy_group_then_end g [] =
     (if prefix Kimi2_end_token [] then Some (g, []) else None)"
| "lazy_group_then_end g (c # cs) =
     (if prefix Kimi2_end_token (c # cs)
      then Some (g, drop (length Kimi2_end_token) (c # cs))
      else lazy_group_then_end (g @ [c]) cs)"

definition match_here :: "ustr \<Rightarrow> (ustr \<times> ustr) option" where
  "match_here s =
     (if prefix Kimi2_start_token s
      then lazy_group_then_end [] (drop (length Kimi2_start_token) s)
      else None)"

fun reasoning_regex_search :: "ustr \<Rightarrow> (ustr \<times> ustr) option" where
  "reasoning_regex_search [] = match_here []"
| "reasoning_regex_search (c # cs) =
     (case match_here (c # cs) of
        Some m \<Rightarrow> Some m
      | None \<Rightarrow> reasoning_regex_search cs)"

text \<open>\<open>reasoning_regex.findall\<close>: the groups of every match, from left to right. A
  match of this pattern ends at the end of the text, where the search for the next one
  resumes and finds nothing, the start token being non-empty: there is at most one.\<close>

definition reasoning_regex_findall :: "ustr \<Rightarrow> (ustr \<times> ustr) list" where
  "reasoning_regex_findall s =
     (case reasoning_regex_search s of None \<Rightarrow> [] | Some m \<Rightarrow> [m])"

text \<open>\<open>xs[0]\<close>, which raises \<open>IndexError\<close> on an empty list.\<close>

definition index0 :: "'a list \<Rightarrow> error + 'a" where
  "index0 xs = (case xs of [] \<Rightarrow> Inl IndexError | x # _ \<Rightarrow> Inr x)"

text \<open>\<open>Kimi2ReasoningParser.extract_reasoning_content\<close>.\<close>

definition Kimi2_extract_reasoning_content ::
  "ustr \<Rightarrow> error + (ustr option \<times> ustr option)" where
  "Kimi2_extract_reasoning_content model_output =
     (let re_match = reasoning_regex_findall model_output in
      if re_match = [] then Inr (None, Some model_output)
      else
        (case index0 re_match of
           Inl e \<Rightarrow> Inl e
         | Inr (reasoning_content', response_content) \<Rightarrow>
             if response_content = [] then Inr (Some reasoning_content', None)
             else Inr (Some reasoning_content', Some response_content)))"

text \<open>The anywhere policy in the words of the specification: the first occurrence of
  the start tag anywhere in the text, then the first occurrence of the end tag after it;
  the text between the two is the reasoning, the text after the end tag the content
  (absent when empty), the text before the start tag is dropped. Without such a pair the
  whole text is content.\<close>

definition anywhere_policy :: "ustr \<Rightarrow> ustr option \<times> ustr option" where
  "anywhere_policy text =
     (case find_str Kimi2_start_token text of
        None \<Rightarrow> (None, Some text)
      | Some i \<Rightarrow>
          let after_start = drop (i + length Kimi2_start_token) text in
          (case find_str Kimi2_end_token after_start of
             None \<Rightarrow> (None, Some text)
           | Some j \<Rightarrow>
               (Some (take j after_start),
                or_None (drop (j + length Kimi2_end_token) after_start))))"

section \<open>The constructors\<close>

text \<open>
  Each constructor first calls \<open>super().__init__(tokenizer)\<close>. The base class
  \<open>ReasoningParser\<close> is defined in \<open>vllm/reasoning/abs_reasoning_parsers.py\<close>, which is
  not among the sources, so its constructor is the parameter \<open>super_init\<close>: it raises or
  returns the object with its attribute \<open>model_tokenizer\<close>.

  \<open>not self.model_tokenizer\<close> asks for the truth value of the attribute: \<open>None\<close> is
  false, and the truth value of a tokenizer object is given by the parameter \<open>truth\<close>.
\<close>

definition py_bool :: "('tok \<Rightarrow> bool) \<Rightarrow> 'tok option \<Rightarrow> bool" where
  "py_bool truth x = (case x of None \<Rightarrow> False | Some t \<Rightarrow> truth t)"

definition Kimi_init ::
  "('tok option \<Rightarrow> error + 'tok ReasoningParser) \<Rightarrow> ('tok \<Rightarrow> bool) \<Rightarrow> 'tok option
     \<Rightarrow> error + 'tok ReasoningParser" where
  "Kimi_init super_init truth tokenizer =
     (case super_init tokenizer of
        Inl e \<Rightarrow> Inl e
      | Inr self \<Rightarrow>
          if \<not> py_bool truth (model_tokenizer self) then Inl ValueError else Inr self)"

definition Kimi2_init ::
  "('tok option \<Rightarrow> error + 'tok ReasoningParser) \<Rightarrow> ('tok \<Rightarrow> bool) \<Rightarrow> 'tok option
     \<Rightarrow> error + 'tok ReasoningParser" where
  "Kimi2_init super_init truth tokenizer =
     (case super_init tokenizer of
        Inl e \<Rightarrow> Inl e
      | Inr self \<Rightarrow>
          if \<not> py_bool truth (model_tokenizer self) then Inl ValueError else Inr self)"

definition Kimi3_init ::
  "('tok option \<Rightarrow> error + 'tok ReasoningParser) \<Rightarrow> 'tok option
     \<Rightarrow> error + 'tok Kimi3ReasoningParser" where
  "Kimi3_init super_init tokenizer =
     (case super_init tokenizer of
        Inl e \<Rightarrow> Inl e
      | Inr self \<Rightarrow>
          Inr \<lparr>model_tokenizer = model_tokenizer self,
               state = STATE_INITIAL, delta_accumulator = []\<rparr>)"

text \<open>A base-class constructor that stores the tokenizer it is given and never raises,
  which is what the checks in the \<open>kimi\<close> and \<open>kimi2\<close> constructors presuppose.\<close>

definition storing_init :: "'tok option \<Rightarrow> error + 'tok ReasoningParser" where
  "storing_init tokenizer = Inr \<lparr>model_tokenizer = tokenizer\<rparr>"

text \<open>A parser as a caller holds it before the first chunk.\<close>

definition fresh :: "unit Kimi3ReasoningParser" where
  "fresh = \<lparr>model_tokenizer = Some (), state = STATE_INITIAL, delta_accumulator = []\<rparr>"

section \<open>The batch operations on an arbitrary argument\<close>

text \<open>
  Python checks the operands of an operation when it runs, and raises where they do not
  fit. To say that a batch operation does not raise on a string, the operation is
  written once more with these checks in it: \<open>model_output\<close> is a Python object, a
  string, \<open>None\<close> or an integer, every operation on it returns a value or an error, and an
  error ends the call.
\<close>

datatype pyval = PyNone | PyInt int | PyStr ustr

text \<open>An error in the first step ends the computation, as a raised exception does.\<close>

definition and_then :: "error + 'a \<Rightarrow> ('a \<Rightarrow> error + 'b) \<Rightarrow> error + 'b" where
  "and_then m f = (case m of Inl e \<Rightarrow> Inl e | Inr x \<Rightarrow> f x)"

text \<open>\<open>v.startswith(t)\<close>: only a string has the method.\<close>

definition py_startswith :: "pyval \<Rightarrow> ustr \<Rightarrow> error + bool" where
  "py_startswith v t =
     (case v of PyStr s \<Rightarrow> Inr (prefix t s) | _ \<Rightarrow> Inl AttributeError)"

text \<open>\<open>v[i:]\<close> and \<open>v[:i]\<close> for an integer \<open>i\<close>: \<open>None\<close> and integers are not
  subscriptable; on a string a negative bound counts from the end, and a bound beyond
  either end is clamped.\<close>

definition py_slice_from :: "pyval \<Rightarrow> int \<Rightarrow> error + pyval" where
  "py_slice_from v i =
     (case v of
        PyStr s \<Rightarrow>
          Inr (PyStr (if i < 0 then drop (nat (int (length s) + i)) s else drop (nat i) s))
      | _ \<Rightarrow> Inl TypeError)"

definition py_slice_to :: "pyval \<Rightarrow> int \<Rightarrow> error + pyval" where
  "py_slice_to v i =
     (case v of
        PyStr s \<Rightarrow>
          Inr (PyStr (if i < 0 then take (nat (int (length s) + i)) s else take (nat i) s))
      | _ \<Rightarrow> Inl TypeError)"

text \<open>\<open>v.find(t)\<close>: the lowest index, or \<open>-1\<close>; only a string has the method.\<close>

definition py_find :: "pyval \<Rightarrow> ustr \<Rightarrow> error + int" where
  "py_find v t =
     (case v of
        PyStr s \<Rightarrow> Inr (case find_str t s of None \<Rightarrow> - 1 | Some i \<Rightarrow> int i)
      | _ \<Rightarrow> Inl AttributeError)"

text \<open>\<open>t in v\<close> for a string \<open>t\<close>: \<open>None\<close> and integers are not containers.\<close>

definition py_in :: "ustr \<Rightarrow> pyval \<Rightarrow> error + bool" where
  "py_in t v = (case v of PyStr s \<Rightarrow> Inr (contains t s) | _ \<Rightarrow> Inl TypeError)"

text \<open>\<open>v.partition(sep)\<close>: only a string has the method, and an empty separator is a
  \<open>ValueError\<close>.\<close>

definition py_partition :: "pyval \<Rightarrow> ustr \<Rightarrow> error + (ustr \<times> ustr \<times> ustr)" where
  "py_partition v sep =
     (case v of
        PyStr s \<Rightarrow> if sep = [] then Inl ValueError else Inr (partition_str sep s)
      | _ \<Rightarrow> Inl AttributeError)"

text \<open>\<open>v or None\<close>: \<open>v\<close> when it is true, that is a non-empty string or an integer
  other than zero.\<close>

definition py_or_None :: "pyval \<Rightarrow> pyval" where
  "py_or_None v =
     (case v of
        PyNone \<Rightarrow> PyNone
      | PyInt i \<Rightarrow> if i = 0 then PyNone else PyInt i
      | PyStr s \<Rightarrow> if s = [] then PyNone else PyStr s)"

text \<open>\<open>reasoning_regex.findall(v)\<close>: a \<open>TypeError\<close> unless \<open>v\<close> is a string.\<close>

definition py_findall :: "pyval \<Rightarrow> error + (ustr \<times> ustr) list" where
  "py_findall v =
     (case v of PyStr s \<Rightarrow> Inr (reasoning_regex_findall s) | _ \<Rightarrow> Inl TypeError)"

text \<open>\<open>KimiReasoningParser.extract_reasoning_content\<close>.\<close>

definition Kimi_extract_reasoning_content_dyn :: "pyval \<Rightarrow> error + (pyval \<times> pyval)" where
  "Kimi_extract_reasoning_content_dyn model_output =
     and_then (py_startswith model_output Kimi_start_token) (\<lambda>starts.
       if \<not> starts then Inr (PyNone, model_output)
       else
         and_then (py_slice_from model_output (int (length Kimi_start_token)))
           (\<lambda>model_output_without_start.
         and_then (py_in Kimi_end_token model_output_without_start) (\<lambda>has_end.
           if \<not> has_end then Inr (model_output_without_start, PyNone)
           else
             and_then (py_partition model_output_without_start Kimi_end_token)
               (\<lambda>(reasoning_content', _, content').
                  let final_content = py_or_None (PyStr content') in
                  Inr (PyStr reasoning_content', final_content)))))"

text \<open>\<open>Kimi2ReasoningParser.extract_reasoning_content\<close>.\<close>

definition Kimi2_extract_reasoning_content_dyn :: "pyval \<Rightarrow> error + (pyval \<times> pyval)" where
  "Kimi2_extract_reasoning_content_dyn model_output =
     and_then (py_findall model_output) (\<lambda>re_match.
       if re_match = [] then Inr (PyNone, model_output)
       else
         and_then (index0 re_match) (\<lambda>(reasoning_content', response_content).
           if response_content = [] then Inr (PyStr reasoning_content', PyNone)
           else Inr (PyStr reasoning_content', PyStr response_content)))"

text \<open>\<open>Kimi3ReasoningParser.extract_reasoning_content\<close>.\<close>

definition Kimi3_extract_reasoning_content_dyn :: "pyval \<Rightarrow> error + (pyval \<times> pyval)" where
  "Kimi3_extract_reasoning_content_dyn model_output =
     and_then (py_startswith model_output START_TEXT) (\<lambda>starts.
       if \<not> starts then Inr (PyNone, model_output)
       else
         and_then (py_slice_from model_output (int START_TEXT_LENGTH)) (\<lambda>model_output.
         and_then (py_find model_output END_TEXT) (\<lambda>reasoning_done_index.
           if reasoning_done_index = - 1 then Inr (model_output, PyNone)
           else
             let content_start_index = reasoning_done_index + int END_TEXT_LENGTH in
             and_then (py_slice_to model_output reasoning_done_index) (\<lambda>before.
             and_then (py_slice_from model_output content_start_index) (\<lambda>after.
               Inr (py_or_None before, py_or_None after))))))"

text \<open>An optional string as the Python object it is.\<close>

definition opt_str :: "ustr option \<Rightarrow> pyval" where
  "opt_str x = (case x of None \<Rightarrow> PyNone | Some t \<Rightarrow> PyStr t)"

section \<open>Facts about the string operations and the delimiters\<close>

lemma START_PREFIXES_eq:
  "START_PREFIXES = {[], [9665], [9665, 116], [9665, 116, 104], [9665, 116, 104, 105],
                     [9665, 116, 104, 105, 110]}"
  by (auto simp add: START_PREFIXES_def START_TEXT_def)

lemma END_PREFIXES_eq:
  "END_PREFIXES = [[9665], [9665, 47], [9665, 47, 116], [9665, 47, 116, 104],
                   [9665, 47, 116, 104, 105], [9665, 47, 116, 104, 105, 110]]"
  by (simp add: END_PREFIXES_def END_TEXT_def upt_conv_Cons)

lemmas tag_defs = START_TEXT_def START_TEXT_LENGTH_def END_TEXT_def END_TEXT_LENGTH_def

lemmas streaming_defs = extract_reasoning_content_streaming_def reasoning_or_output_def
  START_PREFIXES_eq END_PREFIXES_eq tag_defs or_None_def slice_to_neg_def suffix_to_prefix

lemma Kimi2_tokens_nonempty: "Kimi2_start_token \<noteq> []" "Kimi2_end_token \<noteq> []"
  by (simp_all add: Kimi2_start_token_def Kimi2_end_token_def)

text \<open>\<open>find_str\<close> returns the lowest index at which the text goes on with \<open>sub\<close>, and
  \<open>None\<close> exactly when there is no such index.\<close>

lemma find_str_le: "find_str sub s = Some i \<Longrightarrow> i + length sub \<le> length s"
proof (induction s arbitrary: i)
  case Nil
  then show ?case by (simp split: if_splits)
next
  case (Cons c cs)
  show ?case
  proof (cases "prefix sub (c # cs)")
    case True
    with Cons.prems show ?thesis by (auto dest: prefix_length_le)
  next
    case False
    with Cons.prems obtain j where "find_str sub cs = Some j" "i = Suc j" by auto
    with Cons.IH show ?thesis by simp
  qed
qed

lemma find_str_Some_iff:
  "find_str sub s = Some i \<longleftrightarrow>
     i \<le> length s \<and> prefix sub (drop i s) \<and> (\<forall>j<i. \<not> prefix sub (drop j s))"
proof (induction s arbitrary: i)
  case Nil
  then show ?case by auto
next
  case (Cons c cs)
  show ?case
  proof (cases "prefix sub (c # cs)")
    case True
    then show ?thesis by (cases i) auto
  next
    case False
    show ?thesis
    proof (cases i)
      case 0
      with False show ?thesis by simp
    next
      case (Suc k)
      have "(\<forall>j<Suc k. \<not> prefix sub (drop j (c # cs))) \<longleftrightarrow> (\<forall>j<k. \<not> prefix sub (drop j cs))"
        using False by (auto simp: less_Suc_eq_0_disj)
      with False Suc Cons.IH [of k] show ?thesis by simp
    qed
  qed
qed

lemma find_str_None_iff:
  "find_str sub s = None \<longleftrightarrow> (\<forall>j\<le>length s. \<not> prefix sub (drop j s))"
proof (induction s)
  case Nil
  then show ?case by auto
next
  case (Cons c cs)
  have "(\<forall>j\<le>length (c # cs). \<not> prefix sub (drop j (c # cs)))
        \<longleftrightarrow> \<not> prefix sub (c # cs) \<and> (\<forall>j\<le>length cs. \<not> prefix sub (drop j cs))"
    (is "?L \<longleftrightarrow> ?R")
  proof
    assume L: ?L
    have "\<not> prefix sub (c # cs)" using L [rule_format, of 0] by simp
    moreover have "\<not> prefix sub (drop j cs)" if "j \<le> length cs" for j
      using L [rule_format, of "Suc j"] that by simp
    ultimately show ?R by blast
  next
    assume R: ?R
    show ?L
    proof (intro allI impI)
      fix j assume "j \<le> length (c # cs)"
      with R show "\<not> prefix sub (drop j (c # cs))" by (cases j) auto
    qed
  qed
  with Cons.IH show ?case by simp
qed

lemma find_str_None_drop:
  "find_str sub s = None \<Longrightarrow> find_str sub (drop n s) = None"
  unfolding find_str_None_iff
proof (intro allI impI)
  fix j
  assume a: "\<forall>j\<le>length s. \<not> prefix sub (drop j s)" and j: "j \<le> length (drop n s)"
  show "\<not> prefix sub (drop j (drop n s))"
  proof (cases "n \<le> length s")
    case True
    with j have "j + n \<le> length s" by simp
    with a show ?thesis by simp
  next
    case False
    then have "drop j (drop n s) = drop (length s) s" by simp
    with a show ?thesis by (metis le_refl)
  qed
qed

lemma first_suffix_mem: "first_suffix ps d = Some p \<Longrightarrow> p \<in> set ps \<and> suffix p d"
  by (induction ps) (auto split: if_splits)

section \<open>The accumulator stays short\<close>

lemma reasoning_or_output_accumulator:
  "delta_accumulator self = [] \<Longrightarrow>
     delta_accumulator (fst (reasoning_or_output self d))
       \<in> insert [] (START_PREFIXES \<union> set END_PREFIXES)"
  by (auto simp: reasoning_or_output_def split: option.splits dest: first_suffix_mem)

lemma streaming_accumulator:
  "delta_accumulator (fst (extract_reasoning_content_streaming self chunk))
     \<in> insert [] (START_PREFIXES \<union> set END_PREFIXES)"
proof -
  define S where "S = insert [] (START_PREFIXES \<union> set END_PREFIXES)"
  have later: "delta_accumulator (fst (reasoning_or_output s d)) \<in> S"
    if "delta_accumulator s = []" for s :: "'a Kimi3ReasoningParser" and d
    unfolding S_def using that by (rule reasoning_or_output_accumulator)
  have buffered: "d \<in> S" if "d \<in> START_PREFIXES" for d
    unfolding S_def using that by simp
  have "delta_accumulator (fst (extract_reasoning_content_streaming self chunk)) \<in> S"
    unfolding extract_reasoning_content_streaming_def Let_def
    by (simp add: later buffered)
  then show ?thesis unfolding S_def .
qed

lemma accumulator_short:
  "a \<in> insert [] (START_PREFIXES \<union> set END_PREFIXES) \<Longrightarrow> length a \<le> 6"
  unfolding START_PREFIXES_eq END_PREFIXES_eq by auto

lemma feed_accumulator:
  "length (delta_accumulator self) \<le> 6 \<Longrightarrow>
     length (delta_accumulator (fst (feed self chunks))) \<le> 6"
proof (induction chunks arbitrary: self)
  case Nil
  then show ?case by simp
next
  case (Cons chunk chunks)
  have "length (delta_accumulator (fst (extract_reasoning_content_streaming self chunk))) \<le> 6"
    by (rule accumulator_short [OF streaming_accumulator])
  from Cons.IH [OF this] show ?case
    by (simp add: case_prod_unfold Let_def)
qed

text \<open>
  C8. Bounded withholding. A parser starts in \<open>STATE_INITIAL\<close> with an empty accumulator.
  Whatever chunks it is then fed, and however many of them have been consumed, the
  accumulator it holds between two calls is shorter than
  \<open>max (len START_TEXT) (len END_TEXT) - 1 = 7\<close>, hence also shorter than
  \<open>max (len START_TEXT) (len END_TEXT)\<close>.
\<close>

theorem bounded_withholding:
  "length (delta_accumulator
      (fst (feed (self\<lparr>state := STATE_INITIAL, delta_accumulator := []\<rparr>) (take n chunks))))
     < max (length START_TEXT) (length END_TEXT) - 1
   \<and> length (delta_accumulator
      (fst (feed (self\<lparr>state := STATE_INITIAL, delta_accumulator := []\<rparr>) (take n chunks))))
     < max (length START_TEXT) (length END_TEXT)
   \<and> max (length START_TEXT) (length END_TEXT) - 1 = 7"
proof -
  have "length (delta_accumulator
      (fst (feed (self\<lparr>state := STATE_INITIAL, delta_accumulator := []\<rparr>) (take n chunks)))) \<le> 6"
    by (rule feed_accumulator) simp
  then show ?thesis by (simp add: START_TEXT_def END_TEXT_def)
qed

section \<open>The regular expression of kimi2 against the anywhere policy\<close>

lemma lazy_group_then_end_find:
  "lazy_group_then_end g s =
     (case find_str Kimi2_end_token s of
        None \<Rightarrow> None
      | Some j \<Rightarrow> Some (g @ take j s, drop (j + length Kimi2_end_token) s))"
proof (induction s arbitrary: g)
  case Nil
  then show ?case by (simp add: Kimi2_tokens_nonempty)
next
  case (Cons c cs)
  show ?case
  proof (cases "prefix Kimi2_end_token (c # cs)")
    case True
    then show ?thesis by simp
  next
    case False
    then show ?thesis by (simp add: Cons.IH split: option.splits)
  qed
qed

lemma match_here_find:
  "match_here s =
     (if prefix Kimi2_start_token s then
        (case find_str Kimi2_end_token (drop (length Kimi2_start_token) s) of
           None \<Rightarrow> None
         | Some j \<Rightarrow>
             Some (take j (drop (length Kimi2_start_token) s),
                   drop (j + length Kimi2_end_token) (drop (length Kimi2_start_token) s)))
      else None)"
  by (simp add: match_here_def lazy_group_then_end_find split: option.splits)

text \<open>Where no start token is followed by an end token, no position matches.\<close>

lemma reasoning_regex_search_None:
  "(\<And>k. prefix Kimi2_start_token (drop k s) \<Longrightarrow>
         find_str Kimi2_end_token (drop (k + length Kimi2_start_token) s) = None)
   \<Longrightarrow> reasoning_regex_search s = None"
proof (induction s)
  case Nil
  then show ?case by (simp add: match_here_find Kimi2_tokens_nonempty)
next
  case (Cons c cs)
  have here: "match_here (c # cs) = None"
    using Cons.prems [of 0] by (simp add: match_here_find)
  have "reasoning_regex_search cs = None"
  proof (rule Cons.IH)
    fix k assume "prefix Kimi2_start_token (drop k cs)"
    then show "find_str Kimi2_end_token (drop (k + length Kimi2_start_token) cs) = None"
      using Cons.prems [of "Suc k"] by simp
  qed
  with here show ?case by simp
qed

text \<open>The leftmost match starts at the first start token; an end token that does not
  follow the first start token follows no later one either.\<close>

lemma reasoning_regex_search_find:
  "reasoning_regex_search s =
     (case find_str Kimi2_start_token s of
        None \<Rightarrow> None
      | Some i \<Rightarrow>
          (case find_str Kimi2_end_token (drop (i + length Kimi2_start_token) s) of
             None \<Rightarrow> None
           | Some j \<Rightarrow>
               Some (take j (drop (i + length Kimi2_start_token) s),
                     drop (j + length Kimi2_end_token)
                       (drop (i + length Kimi2_start_token) s))))"
proof (induction s)
  case Nil
  then show ?case by (simp add: match_here_find Kimi2_tokens_nonempty)
next
  case (Cons c cs)
  show ?case
  proof (cases "prefix Kimi2_start_token (c # cs)")
    case False
    then have "match_here (c # cs) = None" by (simp add: match_here_find)
    with False Cons.IH show ?thesis
      by (simp split: option.splits)
  next
    case True
    let ?rest = "drop (length Kimi2_start_token) (c # cs)"
    show ?thesis
    proof (cases "find_str Kimi2_end_token ?rest")
      case (Some j)
      with True show ?thesis by (simp add: match_here_find)
    next
      case None
      have "reasoning_regex_search cs = None"
      proof (rule reasoning_regex_search_None)
        fix k
        have "drop (k + length Kimi2_start_token) cs = drop (Suc k) ?rest"
          by (simp add: add.commute)
        then show "find_str Kimi2_end_token (drop (k + length Kimi2_start_token) cs) = None"
          using find_str_None_drop [OF None, of "Suc k"] by simp
      qed
      with True None show ?thesis by (simp add: match_here_find)
    qed
  qed
qed

text \<open>
  C6. \<open>Kimi2ReasoningParser.extract_reasoning_content\<close> implements the anywhere policy.
  On every input it returns, without raising, what the policy says: with a start tag
  that an end tag follows, the text between the first start tag and the first end tag
  after it as reasoning and the text after that end tag as content (\<open>None\<close> when empty),
  the text before the start tag being dropped; without such a pair, \<open>(None, input)\<close>.
\<close>

theorem Kimi2_anywhere_policy:
  "Kimi2_extract_reasoning_content s = Inr (anywhere_policy s)"
  by (simp add: Kimi2_extract_reasoning_content_def reasoning_regex_findall_def index0_def
      reasoning_regex_search_find anywhere_policy_def or_None_def Let_def
      split: option.splits)

section \<open>The streaming machine after the start of the text\<close>

lemma reasoning_or_output_message:
  "snd (reasoning_or_output self d) \<noteq> None"
  by (simp add: reasoning_or_output_def split: option.splits)

lemma reasoning_or_output_state:
  "state self \<noteq> STATE_INITIAL \<Longrightarrow> state (fst (reasoning_or_output self d)) \<noteq> STATE_INITIAL"
  by (simp add: reasoning_or_output_def split: option.splits)

lemma streaming_after_initial:
  assumes "state self \<noteq> STATE_INITIAL"
  shows "snd (extract_reasoning_content_streaming self chunk) \<noteq> None"
    and "state (fst (extract_reasoning_content_streaming self chunk)) \<noteq> STATE_INITIAL"
  using assms
  by (simp_all add: extract_reasoning_content_streaming_def Let_def
      reasoning_or_output_message reasoning_or_output_state)

lemma feed_after_initial:
  "state self \<noteq> STATE_INITIAL \<Longrightarrow>
     list_all (\<lambda>out. out \<noteq> None) (snd (feed self chunks))
     \<and> state (fst (feed self chunks)) \<noteq> STATE_INITIAL"
proof (induction chunks arbitrary: self)
  case Nil
  then show ?case by simp
next
  case (Cons chunk chunks)
  from streaming_after_initial [OF Cons.prems, of chunk] Cons.IH
  show ?case by (simp add: case_prod_unfold Let_def)
qed

lemma streaming_suspends:
  assumes "snd (extract_reasoning_content_streaming self chunk) = None"
  shows "state self = STATE_INITIAL"
    and "delta_accumulator self @ chunk \<in> START_PREFIXES"
    and "fst (extract_reasoning_content_streaming self chunk)
           = self\<lparr>delta_accumulator := delta_accumulator self @ chunk\<rparr>"
  using assms
  by (simp_all add: extract_reasoning_content_streaming_def Let_def
      reasoning_or_output_message split: if_splits)

lemma START_PREFIXES_strict: "d \<in> START_PREFIXES \<Longrightarrow> strict_prefix d START_TEXT"
  unfolding START_PREFIXES_eq START_TEXT_def by auto

text \<open>
  C10. Once the state of a parser is \<open>STATE_REASONING\<close> or \<open>STATE_OUTPUT\<close>, every later
  call returns a \<open>DeltaMessage\<close>, and the state never is \<open>STATE_INITIAL\<close> again. A call
  returns \<open>None\<close> only in \<open>STATE_INITIAL\<close>, with the accumulated text a member of
  \<open>START_PREFIXES\<close>, a proper prefix of the start tag, which it keeps in the accumulator
  while the state stays \<open>STATE_INITIAL\<close>.
\<close>

theorem message_after_initial:
  "(state self \<noteq> STATE_INITIAL \<longrightarrow>
      list_all (\<lambda>out. out \<noteq> None) (snd (feed self chunks))
      \<and> state (fst (feed self chunks)) \<noteq> STATE_INITIAL)
   \<and> (snd (extract_reasoning_content_streaming parser delta_text) = None \<longrightarrow>
        state parser = STATE_INITIAL
        \<and> delta_accumulator parser @ delta_text \<in> START_PREFIXES
        \<and> strict_prefix (delta_accumulator parser @ delta_text) START_TEXT
        \<and> fst (extract_reasoning_content_streaming parser delta_text)
            = parser\<lparr>delta_accumulator := delta_accumulator parser @ delta_text\<rparr>)"
  using feed_after_initial [of self chunks] streaming_suspends [of parser delta_text]
    START_PREFIXES_strict [of "delta_accumulator parser @ delta_text"]
  by blast

text \<open>The same at concrete inputs: a parser in \<open>STATE_REASONING\<close> fed the chunks
  \<open>a\<close>, the end tag followed by \<open>b\<close>, and \<open>c\<close>; and a new parser fed the first three
  characters of the start tag.\<close>

theorem message_after_initial_witness:
  "state (fresh\<lparr>state := STATE_REASONING\<rparr>) \<noteq> STATE_INITIAL
   \<and> snd (feed (fresh\<lparr>state := STATE_REASONING\<rparr>)
        [[97], [9665, 47, 116, 104, 105, 110, 107, 9655, 98], [99]])
      = [Some \<lparr>reasoning_content = Some [97], content = None\<rparr>,
         Some \<lparr>reasoning_content = Some [], content = Some [98]\<rparr>,
         Some \<lparr>reasoning_content = None, content = Some [99]\<rparr>]
   \<and> state (fst (feed (fresh\<lparr>state := STATE_REASONING\<rparr>)
        [[97], [9665, 47, 116, 104, 105, 110, 107, 9655, 98], [99]])) \<noteq> STATE_INITIAL
   \<and> snd (extract_reasoning_content_streaming fresh [9665, 116, 104]) = None
   \<and> state fresh = STATE_INITIAL
   \<and> strict_prefix (delta_accumulator fresh @ [9665, 116, 104]) START_TEXT
   \<and> fst (extract_reasoning_content_streaming fresh [9665, 116, 104])
        = fresh\<lparr>delta_accumulator := [9665, 116, 104]\<rparr>"
proof -
  let ?chunks = "[[97], [9665, 47, 116, 104, 105, 110, 107, 9655, 98], [99]] :: ustr list"
  have s1: "extract_reasoning_content_streaming (fresh\<lparr>state := STATE_REASONING\<rparr>) [97]
      = (fresh\<lparr>state := STATE_REASONING\<rparr>,
         Some \<lparr>reasoning_content = Some [97], content = None\<rparr>)"
    by (simp add: streaming_defs fresh_def)
  have s2: "extract_reasoning_content_streaming (fresh\<lparr>state := STATE_REASONING\<rparr>)
        [9665, 47, 116, 104, 105, 110, 107, 9655, 98]
      = (fresh\<lparr>state := STATE_OUTPUT\<rparr>,
         Some \<lparr>reasoning_content = Some [], content = Some [98]\<rparr>)"
    by (simp add: streaming_defs fresh_def)
  have s3: "extract_reasoning_content_streaming (fresh\<lparr>state := STATE_OUTPUT\<rparr>) [99]
      = (fresh\<lparr>state := STATE_OUTPUT\<rparr>,
         Some \<lparr>reasoning_content = None, content = Some [99]\<rparr>)"
    by (simp add: streaming_defs fresh_def)
  have outs: "snd (feed (fresh\<lparr>state := STATE_REASONING\<rparr>) ?chunks)
      = [Some \<lparr>reasoning_content = Some [97], content = None\<rparr>,
         Some \<lparr>reasoning_content = Some [], content = Some [98]\<rparr>,
         Some \<lparr>reasoning_content = None, content = Some [99]\<rparr>]"
    by (simp add: s1 s2 s3)
  have h1: "state (fresh\<lparr>state := STATE_REASONING\<rparr>) \<noteq> STATE_INITIAL" by simp
  have h2: "snd (extract_reasoning_content_streaming fresh [9665, 116, 104]) = None"
    by (simp add: streaming_defs fresh_def)
  from message_after_initial
         [of "fresh\<lparr>state := STATE_REASONING\<rparr>" ?chunks fresh "[9665, 116, 104]"]
       h1 h2 outs
  show ?thesis by (simp add: fresh_def)
qed

section \<open>The end tag in the streaming machine\<close>



section \<open>Delimiters split across chunks\<close>

text \<open>What the two prefix collections do cover: in \<open>STATE_INITIAL\<close> a prefix of the
  start tag of length up to 5 is stored and nothing returned; in \<open>STATE_REASONING\<close> a
  trailing prefix of the end tag of length 1 to 6 is withheld and the text before it
  emitted as reasoning.\<close>

lemma start_prefix_buffered:
  assumes "state self = STATE_INITIAL"
    and "delta_accumulator self @ delta_text = take n START_TEXT"
    and "n \<le> 5"
  shows "extract_reasoning_content_streaming self delta_text
           = (self\<lparr>delta_accumulator := take n START_TEXT\<rparr>, None)"
proof -
  from \<open>n \<le> 5\<close> have "n \<in> {0, 1, 2, 3, 4, 5}" by auto
  then have mem: "take n START_TEXT \<in> START_PREFIXES"
    unfolding START_PREFIXES_eq START_TEXT_def by auto
  from \<open>n \<le> 5\<close> have "length (take n START_TEXT) < length START_TEXT"
    by (simp add: START_TEXT_def)
  then have "\<not> prefix START_TEXT (take n START_TEXT)"
    by (auto dest: prefix_length_le)
  with assms mem show ?thesis
    by (simp add: extract_reasoning_content_streaming_def Let_def)
qed

lemma first_suffix_END_PREFIXES:
  assumes "suffix (take n END_TEXT) d" and "1 \<le> n" and "n \<le> 6"
  shows "first_suffix END_PREFIXES d = Some (take n END_TEXT)"
proof -
  from assms(1) obtain xs where d: "d = xs @ take n END_TEXT" by (auto elim: suffixE)
  from assms(2,3) have "n \<in> {1, 2, 3, 4, 5, 6}" by auto
  then show ?thesis
    unfolding d END_PREFIXES_eq END_TEXT_def
    by (auto simp: suffix_to_prefix)
qed

lemma end_prefix_withheld:
  assumes "state self = STATE_REASONING"
    and "find_str END_TEXT (delta_accumulator self @ delta_text) = None"
    and "suffix (take n END_TEXT) (delta_accumulator self @ delta_text)"
    and "1 \<le> n" and "n \<le> 6"
  shows "extract_reasoning_content_streaming self delta_text
           = (self\<lparr>delta_accumulator := take n END_TEXT\<rparr>,
              Some \<lparr>reasoning_content =
                      Some (take (length (delta_accumulator self @ delta_text) - n)
                              (delta_accumulator self @ delta_text)),
                    content = None\<rparr>)"
proof -
  from \<open>n \<le> 6\<close> have "length (take n END_TEXT) = n" by (simp add: END_TEXT_def)
  with assms first_suffix_END_PREFIXES [OF assms(3-5)] show ?thesis
    by (simp add: extract_reasoning_content_streaming_def reasoning_or_output_def Let_def
        slice_to_neg_def)
qed

text \<open>
  C3. The claim is that in \<open>STATE_INITIAL\<close> every non-empty proper prefix of the start
  tag, of length 1 to 6, is stored and \<open>None\<close> returned. \<open>START_PREFIXES\<close> is built with
  \<open>range(len(START_TEXT) - 1)\<close> and holds the prefixes of length 0 to 5 only. With the
  first five characters of the start tag in the accumulator and the sixth arriving, the
  accumulated text is a proper prefix of the start tag, yet the call moves to
  \<open>STATE_OUTPUT\<close> and emits the six characters as content.
\<close>

theorem start_prefix_of_length_six_not_buffered:
  "strict_prefix ([9665, 116, 104, 105, 110] @ [107]) START_TEXT
   \<and> extract_reasoning_content_streaming
       (fresh\<lparr>state := STATE_INITIAL, delta_accumulator := [9665, 116, 104, 105, 110]\<rparr>)
       [107]
     = (fresh\<lparr>state := STATE_OUTPUT, delta_accumulator := []\<rparr>,
        Some \<lparr>reasoning_content = None,
              content = Some [9665, 116, 104, 105, 110, 107]\<rparr>)"
  by (simp add: streaming_defs fresh_def strict_prefix_def)

text \<open>
  C2. The claim is that in \<open>STATE_REASONING\<close>, without an end tag in the accumulated
  text, the longest suffix that is a proper prefix of the end tag, of length 1 to 7, is
  withheld. \<open>END_PREFIXES\<close> is built with \<open>range(1, len(END_TEXT) - 1)\<close> and holds the
  prefixes of length 1 to 6 only. With \<open>a\<close> and the first seven characters of the end tag
  arriving, there is no end tag yet and the text ends with a proper prefix of it, yet the
  call emits all eight characters as reasoning and withholds nothing.
\<close>

theorem end_prefix_of_length_seven_not_withheld:
  "find_str END_TEXT ([] @ [97, 9665, 47, 116, 104, 105, 110, 107]) = None
   \<and> suffix (take 7 END_TEXT) ([] @ [97, 9665, 47, 116, 104, 105, 110, 107])
   \<and> extract_reasoning_content_streaming
       (fresh\<lparr>state := STATE_REASONING, delta_accumulator := []\<rparr>)
       [97, 9665, 47, 116, 104, 105, 110, 107]
     = (fresh\<lparr>state := STATE_REASONING, delta_accumulator := []\<rparr>,
        Some \<lparr>reasoning_content = Some [97, 9665, 47, 116, 104, 105, 110, 107],
              content = None\<rparr>)"
  by (simp add: streaming_defs fresh_def)

text \<open>
  C1. The claim is that the concatenated reasoning and the concatenated content do not
  depend on where the text is cut into chunks. The text made of the start tag and \<open>a\<close>,
  fed whole to a new parser, yields the reasoning \<open>a\<close> and no content. Cut after the
  sixth character of the start tag, it yields no reasoning, and the whole text, start tag
  included, as content.
\<close>

theorem chunk_split_changes_output:
  "emitted reasoning_content
     (snd (feed fresh [[9665, 116, 104, 105, 110, 107, 9655, 97]])) = [97]
   \<and> emitted content
     (snd (feed fresh [[9665, 116, 104, 105, 110, 107, 9655, 97]])) = []
   \<and> emitted reasoning_content
     (snd (feed fresh [[9665, 116, 104, 105, 110, 107], [9655, 97]])) = []
   \<and> emitted content
     (snd (feed fresh [[9665, 116, 104, 105, 110, 107], [9655, 97]]))
       = [9665, 116, 104, 105, 110, 107, 9655, 97]"
proof -
  have whole: "extract_reasoning_content_streaming fresh [9665, 116, 104, 105, 110, 107, 9655, 97]
      = (fresh\<lparr>state := STATE_REASONING\<rparr>,
         Some \<lparr>reasoning_content = Some [97], content = None\<rparr>)"
    by (simp add: streaming_defs fresh_def)
  have first: "extract_reasoning_content_streaming fresh [9665, 116, 104, 105, 110, 107]
      = (fresh\<lparr>state := STATE_OUTPUT\<rparr>,
         Some \<lparr>reasoning_content = None, content = Some [9665, 116, 104, 105, 110, 107]\<rparr>)"
    by (simp add: streaming_defs fresh_def)
  have second: "extract_reasoning_content_streaming (fresh\<lparr>state := STATE_OUTPUT\<rparr>) [9655, 97]
      = (fresh\<lparr>state := STATE_OUTPUT\<rparr>,
         Some \<lparr>reasoning_content = None, content = Some [9655, 97]\<rparr>)"
    by (simp add: streaming_defs fresh_def)
  show ?thesis
    by (simp add: whole first second emitted_def fragment_def)
qed

section \<open>The batch operations\<close>

lemmas batch_defs = Kimi_extract_reasoning_content_def Kimi3_extract_reasoning_content_def
  Kimi_start_token_def Kimi_end_token_def contains_def partition_str_def or_None_def tag_defs

text \<open>
  C4, as stated, fails for \<open>KimiReasoningParser\<close>: on the start tag, the end tag and
  \<open>b\<close> it returns the empty string as reasoning, not \<open>None\<close>.
\<close>

theorem Kimi_returns_empty_reasoning:
  "Kimi_extract_reasoning_content
     [9665, 116, 104, 105, 110, 107, 9655, 9665, 47, 116, 104, 105, 110, 107, 9655, 98]
     = (Some [], Some [98])
   \<and> Kimi_extract_reasoning_content
     [9665, 116, 104, 105, 110, 107, 9655, 9665, 47, 116, 104, 105, 110, 107, 9655, 98]
     \<noteq> (None, Some [98])"
  by (simp add: batch_defs)

text \<open>
  C4, amended. When the input starts with the start tag and the end tag occurs in the
  remainder, first at offset \<open>i\<close>, both parsers return the text after that end tag as
  content, \<open>None\<close> when it is empty. \<open>Kimi3ReasoningParser\<close> returns the text before it
  as reasoning with the empty string turned into \<open>None\<close>; \<open>KimiReasoningParser\<close> returns
  that text as it is, also when it is the empty string.
\<close>

theorem prefix_policy_split:
  assumes "prefix START_TEXT s"
    and "find_str END_TEXT (drop (length START_TEXT) s) = Some i"
  shows "Kimi3_extract_reasoning_content s
           = (or_None (take i (drop (length START_TEXT) s)),
              or_None (drop (i + length END_TEXT) (drop (length START_TEXT) s)))
       \<and> Kimi_extract_reasoning_content s
           = (Some (take i (drop (length START_TEXT) s)),
              or_None (drop (i + length END_TEXT) (drop (length START_TEXT) s)))"
proof -
  have tokens: "Kimi_start_token = START_TEXT" "Kimi_end_token = END_TEXT"
    by (simp_all add: Kimi_start_token_def Kimi_end_token_def tag_defs)
  from assms show ?thesis
    by (simp add: Kimi3_extract_reasoning_content_def Kimi_extract_reasoning_content_def
        tokens contains_def partition_str_def START_TEXT_LENGTH_def END_TEXT_LENGTH_def Let_def)
qed

text \<open>On the start tag, the end tag and \<open>b\<close>: \<open>(None, b)\<close> from
  \<open>Kimi3ReasoningParser\<close>, the empty string and \<open>b\<close> from \<open>KimiReasoningParser\<close>.\<close>

theorem prefix_policy_split_witness:
  "prefix START_TEXT
     [9665, 116, 104, 105, 110, 107, 9655, 9665, 47, 116, 104, 105, 110, 107, 9655, 98]
   \<and> find_str END_TEXT (drop (length START_TEXT)
     [9665, 116, 104, 105, 110, 107, 9655, 9665, 47, 116, 104, 105, 110, 107, 9655, 98]) = Some 0
   \<and> Kimi3_extract_reasoning_content
     [9665, 116, 104, 105, 110, 107, 9655, 9665, 47, 116, 104, 105, 110, 107, 9655, 98]
     = (None, Some [98])
   \<and> Kimi_extract_reasoning_content
     [9665, 116, 104, 105, 110, 107, 9655, 9665, 47, 116, 104, 105, 110, 107, 9655, 98]
     = (Some [], Some [98])"
proof -
  let ?s = "[9665, 116, 104, 105, 110, 107, 9655, 9665, 47, 116, 104, 105, 110, 107, 9655, 98]
              :: ustr"
  have h1: "prefix START_TEXT ?s" by (simp add: START_TEXT_def)
  have h2: "find_str END_TEXT (drop (length START_TEXT) ?s) = Some 0"
    by (simp add: START_TEXT_def END_TEXT_def)
  from prefix_policy_split [OF h1 h2] h1 h2 show ?thesis
    by (simp add: or_None_def START_TEXT_def END_TEXT_def)
qed

lemma Kimi_tokens_nonempty: "Kimi_start_token \<noteq> []" "Kimi_end_token \<noteq> []"
  by (simp_all add: Kimi_start_token_def Kimi_end_token_def)

lemma py_or_None_PyStr: "py_or_None (PyStr x) = opt_str (or_None x)"
  by (simp add: py_or_None_def opt_str_def or_None_def)

text \<open>On a string argument the run-time checks of the three operations all pass, and
  the objects returned are the optional strings computed on the string itself.\<close>

lemma Kimi_extract_dyn_PyStr:
  "Kimi_extract_reasoning_content_dyn (PyStr s) =
     Inr (opt_str (fst (Kimi_extract_reasoning_content s)),
          opt_str (snd (Kimi_extract_reasoning_content s)))"
  by (simp add: Kimi_extract_reasoning_content_dyn_def Kimi_extract_reasoning_content_def
      and_then_def py_startswith_def py_slice_from_def py_in_def py_partition_def
      Kimi_tokens_nonempty py_or_None_PyStr opt_str_def Let_def split: prod.splits)

lemma Kimi3_extract_dyn_PyStr:
  "Kimi3_extract_reasoning_content_dyn (PyStr s) =
     Inr (opt_str (fst (Kimi3_extract_reasoning_content s)),
          opt_str (snd (Kimi3_extract_reasoning_content s)))"
  by (simp add: Kimi3_extract_reasoning_content_dyn_def Kimi3_extract_reasoning_content_def
      and_then_def py_startswith_def py_slice_from_def py_slice_to_def py_find_def
      py_or_None_PyStr opt_str_def Let_def nat_add_distrib split: option.splits)

lemma Kimi2_extract_dyn_PyStr:
  "\<exists>r c. Kimi2_extract_reasoning_content_dyn (PyStr s) = Inr (opt_str r, opt_str c)
         \<and> Kimi2_extract_reasoning_content s = Inr (r, c)"
proof (cases "reasoning_regex_search s")
  case None
  then have "Kimi2_extract_reasoning_content_dyn (PyStr s) = Inr (opt_str None, opt_str (Some s))"
    and "Kimi2_extract_reasoning_content s = Inr (None, Some s)"
    by (simp_all add: Kimi2_extract_reasoning_content_dyn_def Kimi2_extract_reasoning_content_def
        and_then_def py_findall_def reasoning_regex_findall_def opt_str_def)
  then show ?thesis by blast
next
  case (Some m)
  obtain g rest where m: "m = (g, rest)" by (cases m)
  with Some have "Kimi2_extract_reasoning_content_dyn (PyStr s)
        = Inr (opt_str (Some g), opt_str (or_None rest))"
    and "Kimi2_extract_reasoning_content s = Inr (Some g, or_None rest)"
    by (simp_all add: Kimi2_extract_reasoning_content_dyn_def Kimi2_extract_reasoning_content_def
        and_then_def py_findall_def reasoning_regex_findall_def index0_def opt_str_def
        or_None_def)
  then show ?thesis by blast
qed

text \<open>The checks are not idle: an argument that is not a string makes each operation
  raise.\<close>

lemma batch_raises_without_string:
  "Kimi_extract_reasoning_content_dyn PyNone = Inl AttributeError"
  "Kimi2_extract_reasoning_content_dyn PyNone = Inl TypeError"
  "Kimi3_extract_reasoning_content_dyn (PyInt 0) = Inl AttributeError"
  by (simp_all add: Kimi_extract_reasoning_content_dyn_def
      Kimi2_extract_reasoning_content_dyn_def Kimi3_extract_reasoning_content_dyn_def
      and_then_def py_startswith_def py_findall_def)

text \<open>
  C7. On every input string, however the delimiter tags occur in it, each of the three
  batch operations returns and does not raise: every operation in it that checks its
  operands when it runs (\<open>startswith\<close>, slicing, \<open>find\<close>, \<open>in\<close>, \<open>partition\<close> with its
  non-empty separator, \<open>findall\<close>, \<open>re_match[0]\<close>) finds them as it needs them. What is
  returned is a pair of objects each of which is \<open>None\<close> or a string, the classification
  that the operation computes on the string.
\<close>

theorem batch_never_raises:
  "(\<exists>r c. Kimi_extract_reasoning_content_dyn (PyStr s) = Inr (opt_str r, opt_str c)
          \<and> Kimi_extract_reasoning_content s = (r, c))
   \<and> (\<exists>r c. Kimi2_extract_reasoning_content_dyn (PyStr s) = Inr (opt_str r, opt_str c)
          \<and> Kimi2_extract_reasoning_content s = Inr (r, c))
   \<and> (\<exists>r c. Kimi3_extract_reasoning_content_dyn (PyStr s) = Inr (opt_str r, opt_str c)
          \<and> Kimi3_extract_reasoning_content s = (r, c))"
proof (intro conjI)
  show "\<exists>r c. Kimi_extract_reasoning_content_dyn (PyStr s) = Inr (opt_str r, opt_str c)
          \<and> Kimi_extract_reasoning_content s = (r, c)"
    using Kimi_extract_dyn_PyStr [of s] by (simp add: prod_eq_iff)
  show "\<exists>r c. Kimi2_extract_reasoning_content_dyn (PyStr s) = Inr (opt_str r, opt_str c)
          \<and> Kimi2_extract_reasoning_content s = Inr (r, c)"
    by (rule Kimi2_extract_dyn_PyStr)
  show "\<exists>r c. Kimi3_extract_reasoning_content_dyn (PyStr s) = Inr (opt_str r, opt_str c)
          \<and> Kimi3_extract_reasoning_content s = (r, c)"
    using Kimi3_extract_dyn_PyStr [of s] by (simp add: prod_eq_iff)
qed

section \<open>Construction\<close>

text \<open>
  C5. The claim is that each of the three constructors raises exactly when the tokenizer
  is absent. The constructors of \<open>KimiReasoningParser\<close> and \<open>Kimi2ReasoningParser\<close>
  check the tokenizer and raise \<open>ValueError\<close> on \<open>None\<close>; that of
  \<open>Kimi3ReasoningParser\<close> has no such check. It raises only if the constructor of the
  base class does, and with a base class that stores the tokenizer it returns a parser
  for \<open>None\<close>.
\<close>

theorem Kimi3_init_accepts_missing_tokenizer:
  "Kimi3_init storing_init None
     = Inr \<lparr>model_tokenizer = None, state = STATE_INITIAL, delta_accumulator = []\<rparr>
   \<and> Kimi_init storing_init truth None = Inl ValueError
   \<and> Kimi2_init storing_init truth None = Inl ValueError
   \<and> (\<exists>e. Kimi3_init super_init tokenizer = Inl e) = (\<exists>e. super_init tokenizer = Inl e)"
  by (auto simp add: Kimi3_init_def Kimi_init_def Kimi2_init_def storing_init_def py_bool_def
      split: sum.splits)

end
